theory Spec2Isabelle
  imports Complex_Main
begin

section \<open>Training orchestration of train\_satellites.py\<close>

text \<open>
  A shallow embedding of \<^verbatim>\<open>src/train_satellites.py\<close>: the metric accumulator
  (\<^verbatim>\<open>AverageMeter\<close>), the two epoch passes (\<^verbatim>\<open>train\<close>, \<^verbatim>\<open>validate\<close>), the
  checkpoint writer (\<^verbatim>\<open>save_checkpoint\<close>), the module-level set-up and \<^verbatim>\<open>main\<close>.

  Conventions of the embedding.
  \<^item> Python floats are modelled as \<^typ>\<open>real\<close> (exact arithmetic, no rounding, no NaN),
    Python ints as \<^typ>\<open>int\<close>.
  \<^item> Every \<^verbatim>\<open>raise\<close> of the script, and every exception of an operation the script
    itself evaluates (\<^verbatim>\<open>%\<close> and \<^verbatim>\<open>/\<close> by zero, the undefined global \<^verbatim>\<open>logger\<close>,
    copying a file onto itself, unpickling a file that is no checkpoint), is a value
    \<open>Inl e\<close>. A function that can raise returns \<open>(error + result) \<times> world\<close>: the
    globals and the files keep what was done before the exception.
  \<^item> The collaborators (model, criterion, optimizer, scheduler, logger, dataset
    reader, splitter) are not part of the script. A call to one of them is recorded, in
    program order, in the \<open>calls\<close> field of the world. The scalar loss and the item
    count the script reads back for a batch are carried by the batch itself.
  \<^item> Files are a map from the literal path to a content; paths are not normalised.
    Writing a file is assumed to succeed.
  \<^item> Console output and the two timing meters (\<^verbatim>\<open>batch_time\<close>, \<^verbatim>\<open>data_time\<close>,
    updated with weight 1 only) influence neither state nor results and are left out;
    the guard \<^verbatim>\<open>i % args.print_freq == 0\<close> of the print is kept, since evaluating
    it can raise.
\<close>

subsection \<open>Errors\<close>

datatype error =
    ValueError string
  | ZeroDivisionError
  | NameError string
  | UnpicklingError
  | SameFileError

subsection \<open>Command-line arguments\<close>

record config =
  arch :: string
  workers :: int
  epochs :: int
  start_epoch :: int
  batch_size :: int
  lr :: real
  optimizer :: string
  print_freq :: int
  resume :: string
  lognumber :: string
  preset :: string
  tensorboard :: bool
  augs :: bool
  imsize :: int
  seed :: int
  evaluate :: bool
  tensorboard_images :: bool

text \<open>The values \<^verbatim>\<open>parser.parse_args()\<close> yields when no option is given.\<close>

definition default_args :: config where
  "default_args =
     \<lparr> arch = ''linknet34'', workers = 4, epochs = 20, start_epoch = 0,
       batch_size = 256, lr = 1 / 10, optimizer = ''adam'', print_freq = 10,
       resume = [], lognumber = ''test_model'', preset = ''mul_urban'',
       tensorboard = False, augs = False, imsize = 320, seed = 42,
       evaluate = False, tensorboard_images = False \<rparr>"


subsection \<open>AverageMeter\<close>

record AverageMeter =
  val :: real
  avg :: real
  sum_m :: real
  count :: int

definition reset :: AverageMeter where
  "reset = \<lparr> val = 0, avg = 0, sum_m = 0, count = 0 \<rparr>"

text \<open>
  \<^verbatim>\<open>update(val, n)\<close>. The division \<^verbatim>\<open>self.sum / self.count\<close> raises when the new
  count is zero.
\<close>

definition update :: "AverageMeter \<Rightarrow> real \<Rightarrow> int \<Rightarrow> error + AverageMeter" where
  "update m v n =
     (let s = sum_m m + v * of_int n;
          c = count m + n
      in if c = 0 then Inl ZeroDivisionError
         else Inr \<lparr> val = v, avg = s / of_int c, sum_m = s, count = c \<rparr>)"

text \<open>A sequence of \<^verbatim>\<open>update\<close> calls on one meter; the first exception ends it.\<close>

fun updates :: "AverageMeter \<Rightarrow> (real \<times> int) list \<Rightarrow> error + AverageMeter" where
  "updates m [] = Inr m"
| "updates m ((v, n) # r) =
     (case update m v n of Inl e \<Rightarrow> Inl e | Inr m' \<Rightarrow> updates m' r)"

subsection \<open>The world: collaborator calls, files and globals\<close>

type_synonym blob = nat

datatype call =
    RmTree string
  | LoggerInit string
  | GetTrainDataset string
  | TrainTestSplit real int
  | LoadStateDict blob
  | ModelTrain
  | ModelEval
  | Forward
  | Criterion
  | ZeroGrad
  | Backward
  | OptimizerStep
  | SchedulerStep real
  | ScalarSummary string real int
  | ImageSummary string int
  | TorchSave string
  | CopyFile string string

text \<open>
  A batch as a pass sees it: \<open>bsize\<close> is \<^verbatim>\<open>input.size(0)\<close>, \<open>bloss\<close> is
  \<^verbatim>\<open>loss.data[0]\<close>, the scalar the criterion returns for the batch in that pass.
\<close>

record batch =
  bsize :: int
  bloss :: real

text \<open>The dictionary handed to \<^verbatim>\<open>torch.save\<close>.\<close>

record checkpoint =
  ck_epoch :: int
  ck_arch :: string
  ck_state_dict :: blob
  ck_best_val_loss :: real

datatype content = CheckpointFile checkpoint | OtherFile

record world =
  calls :: "call list"
  fs :: "string \<Rightarrow> content option"
  best_val_loss :: real
  train_minib_counter :: int
  valid_minib_counter :: int

text \<open>The module-level globals of lines 73--75, over the files found at start.\<close>

definition initial_world :: "(string \<Rightarrow> content option) \<Rightarrow> world" where
  "initial_world files =
     \<lparr> calls = [], fs = files, best_val_loss = 100,
       train_minib_counter = 0, valid_minib_counter = 0 \<rparr>"

definition emit :: "call list \<Rightarrow> world \<Rightarrow> world" where
  "emit cs w = w\<lparr> calls := calls w @ cs \<rparr>"


subsection \<open>train (lines 240--299)\<close>

fun train_loop ::
  "config \<Rightarrow> int \<Rightarrow> AverageMeter \<Rightarrow> batch list \<Rightarrow> world \<Rightarrow> (error + AverageMeter) \<times> world"
where
  "train_loop cfg i losses [] w = (Inr losses, w)"
| "train_loop cfg i losses (b # bs) w =
     (let w1 = emit [Forward, Criterion] w in
      (case update losses (bloss b) (bsize b) of
         Inl e \<Rightarrow> (Inl e, w1)
       | Inr losses' \<Rightarrow>
           (let w2 = emit [ZeroGrad, Backward] w1;
                w3 = (if tensorboard cfg
                      then emit [ScalarSummary ''train_loss'' (val losses') (train_minib_counter w2)] w2
                      else w2);
                w4 = w3\<lparr> train_minib_counter := train_minib_counter w3 + 1 \<rparr>
            in if print_freq cfg = 0 then (Inl ZeroDivisionError, w4)
               else train_loop cfg (i + 1) losses' bs w4)))"

definition train :: "config \<Rightarrow> batch list \<Rightarrow> int \<Rightarrow> world \<Rightarrow> (error + real) \<times> world" where
  "train cfg train_loader epoch w =
     (case train_loop cfg 0 reset train_loader (emit [ModelTrain] w) of
        (Inl e, w') \<Rightarrow> (Inl e, w')
      | (Inr losses, w') \<Rightarrow> (Inr (avg losses), w'))"

subsection \<open>validate (lines 301--379)\<close>

text \<open>
  One of the three image blocks of lines 324--348. The global \<^verbatim>\<open>logger\<close> is bound
  only when \<^verbatim>\<open>args.tensorboard\<close> is set (lines 91--92).
\<close>

definition image_log :: "config \<Rightarrow> int \<Rightarrow> string \<Rightarrow> world \<Rightarrow> (error + unit) \<times> world" where
  "image_log cfg i tag w =
     (if tensorboard_images cfg then
        (if print_freq cfg = 0 then (Inl ZeroDivisionError, w)
         else if i mod print_freq cfg = 0 then
           (if tensorboard cfg
            then (Inr (), emit [ImageSummary tag (train_minib_counter w)] w)
            else (Inl (NameError ''logger''), w))
         else (Inr (), w))
      else (Inr (), w))"

fun validate_loop ::
  "config \<Rightarrow> int \<Rightarrow> AverageMeter \<Rightarrow> batch list \<Rightarrow> world \<Rightarrow> (error + AverageMeter) \<times> world"
where
  "validate_loop cfg i losses [] w = (Inr losses, w)"
| "validate_loop cfg i losses (b # bs) w =
     (let w1 = emit [Forward] w in
      (case image_log cfg i ''images'' w1 of
         (Inl e, w2) \<Rightarrow> (Inl e, w2)
       | (Inr u, w2) \<Rightarrow>
      (case image_log cfg i ''masks'' w2 of
         (Inl e, w3) \<Rightarrow> (Inl e, w3)
       | (Inr u, w3) \<Rightarrow>
      (case image_log cfg i ''preds'' w3 of
         (Inl e, w4) \<Rightarrow> (Inl e, w4)
       | (Inr u, w4) \<Rightarrow>
          (let w5 = emit [Criterion] w4 in
           (case update losses (bloss b) (bsize b) of
              Inl e \<Rightarrow> (Inl e, w5)
            | Inr losses' \<Rightarrow>
                (let w6 = (if tensorboard cfg
                           then emit [ScalarSummary ''valid_loss'' (val losses') (valid_minib_counter w5)] w5
                           else w5);
                     w7 = w6\<lparr> valid_minib_counter := valid_minib_counter w6 + 1 \<rparr>
                 in if print_freq cfg = 0 then (Inl ZeroDivisionError, w7)
                    else validate_loop cfg (i + 1) losses' bs w7)))))))"

definition validate :: "config \<Rightarrow> batch list \<Rightarrow> world \<Rightarrow> (error + real) \<times> world" where
  "validate cfg val_loader w =
     (case validate_loop cfg 0 reset val_loader (emit [ModelEval] w) of
        (Inl e, w') \<Rightarrow> (Inl e, w')
      | (Inr losses, w') \<Rightarrow> (Inr (avg losses), w'))"

subsection \<open>save\_checkpoint (lines 381--384)\<close>


subsection \<open>Module-level set-up (lines 84--92)\<close>






subsection \<open>main (lines 94--238)\<close>








subsection \<open>The dataset split (lines 98--107)\<close>

text \<open>
  \<^verbatim>\<open>train_test_split\<close> belongs to a library. It is a parameter here: a function of
  the two arrays, the test size, the stratification keys, the \<^verbatim>\<open>random_state\<close>
  argument (\<open>None\<close> when the caller gives none) and the state of the process-wide
  random generator at the time of the call.
\<close>

type_synonym split = "string list \<times> string list \<times> string list \<times> string list"




subsection \<open>The scheduler\<close>

text \<open>
  Modelled from the spec: the reduce-on-plateau scheduler, whose code (the class
  \<^verbatim>\<open>ReduceLROnPlateau\<close>) is not in the repository. Section 4.4 of the specification:
  the scheduler tracks the best monitored value; a value that improves on it by more
  than the threshold (strictly lower, for a minimising monitor) resets the stale count
  and becomes the best; otherwise the stale count grows, and when it exceeds the
  patience the step size is multiplied by the decay factor, bounded below by the floor,
  the stale count is reset and a cooldown begins, during which staleness is not counted.
  \<open>step\<close> returns whether the step size was reduced, and the new step size.
\<close>

record scheduler =
  factor :: real
  patience :: nat
  threshold :: real
  min_lr :: real
  cooldown :: nat
  step_size :: real
  best :: "real option"
  num_bad_epochs :: nat
  cooldown_counter :: nat

definition improves :: "real \<Rightarrow> scheduler \<Rightarrow> bool" where
  "improves v s = (case best s of None \<Rightarrow> True | Some b \<Rightarrow> v < b - threshold s)"

definition scheduler_step :: "real \<Rightarrow> scheduler \<Rightarrow> (bool \<times> real) \<times> scheduler" where
  "scheduler_step v s =
     (if improves v s then
        ((False, step_size s),
         s\<lparr> best := Some v, num_bad_epochs := 0, cooldown_counter := cooldown_counter s - 1 \<rparr>)
      else if 0 < cooldown_counter s then
        ((False, step_size s), s\<lparr> cooldown_counter := cooldown_counter s - 1 \<rparr>)
      else if patience s < num_bad_epochs s + 1 then
        (let new_lr = max (step_size s * factor s) (min_lr s)
         in ((new_lr < step_size s, new_lr),
             s\<lparr> step_size := new_lr, num_bad_epochs := 0, cooldown_counter := cooldown s \<rparr>))
      else ((False, step_size s), s\<lparr> num_bad_epochs := num_bad_epochs s + 1 \<rparr>))"

fun scheduler_steps :: "real list \<Rightarrow> scheduler \<Rightarrow> scheduler" where
  "scheduler_steps [] s = s"
| "scheduler_steps (v # vs) s = scheduler_steps vs (snd (scheduler_step v s))"

text \<open>
  The scheduler as \<^verbatim>\<open>main\<close> constructs it (lines 187--194) over the optimizer's
  learning rate; the cooldown length is not given there and stays a parameter.
\<close>

definition main_scheduler :: "config \<Rightarrow> nat \<Rightarrow> scheduler" where
  "main_scheduler cfg cd =
     \<lparr> factor = 1 / 10, patience = 4, threshold = 1 / 1000, min_lr = 1 / 10 ^ 7,
       cooldown = cd, step_size = lr cfg, best = None, num_bad_epochs = 0,
       cooldown_counter = 0 \<rparr>"

subsection \<open>Classes of collaborator calls\<close>

text \<open>The calls a validation pass may issue after \<^verbatim>\<open>model.eval()\<close>; an image log
  must carry the step \<open>t\<close>.\<close>

fun pass_call :: "int \<Rightarrow> call \<Rightarrow> bool" where
  "pass_call t Forward = True"
| "pass_call t Criterion = True"
| "pass_call t (ScalarSummary tag v s) = True"
| "pass_call t (ImageSummary tag s) = (s = t)"
| "pass_call t c = False"

text \<open>The calls a training pass may issue after \<^verbatim>\<open>model.train()\<close>.\<close>

fun train_call :: "call \<Rightarrow> bool" where
  "train_call Forward = True"
| "train_call Criterion = True"
| "train_call ZeroGrad = True"
| "train_call Backward = True"
| "train_call (ScalarSummary tag v s) = True"
| "train_call c = False"

text \<open>
  The calls that neither write the model's parameters (\<^verbatim>\<open>optimizer.step()\<close>,
  \<^verbatim>\<open>load_state_dict\<close>), nor prepare such a write (\<^verbatim>\<open>zero_grad\<close>, \<^verbatim>\<open>backward\<close>), nor
  switch the model's mode.
\<close>

fun inference_call :: "call \<Rightarrow> bool" where
  "inference_call Forward = True"
| "inference_call Criterion = True"
| "inference_call (ScalarSummary tag v s) = True"
| "inference_call (ImageSummary tag s) = True"
| "inference_call c = False"



text \<open>What a validation pass and a training pass leave untouched.\<close>

definition pass_frame :: "world \<Rightarrow> world \<Rightarrow> bool" where
  "pass_frame w w' =
     (fs w' = fs w \<and> best_val_loss w' = best_val_loss w \<and>
      train_minib_counter w' = train_minib_counter w \<and>
      (\<exists>cs. calls w' = calls w @ cs \<and> list_all (pass_call (train_minib_counter w)) cs))"

definition train_frame :: "world \<Rightarrow> world \<Rightarrow> bool" where
  "train_frame w w' =
     (fs w' = fs w \<and> best_val_loss w' = best_val_loss w \<and>
      (\<exists>cs. calls w' = calls w @ cs \<and> list_all train_call cs))"


subsection \<open>Concrete inputs\<close>

definition two_batches :: "batch list" where
  "two_batches = [\<lparr>bsize = 4, bloss = 1 / 2\<rparr>, \<lparr>bsize = 2, bloss = 3 / 10\<rparr>]"

definition image_cfg :: config where
  "image_cfg = default_args\<lparr> tensorboard := True, tensorboard_images := True, print_freq := 1 \<rparr>"










section \<open>Properties\<close>

subsection \<open>What the passes leave untouched\<close>

lemma emit_simps:
  "calls (emit cs w) = calls w @ cs"
  "fs (emit cs w) = fs w"
  "best_val_loss (emit cs w) = best_val_loss w"
  "train_minib_counter (emit cs w) = train_minib_counter w"
  "valid_minib_counter (emit cs w) = valid_minib_counter w"
  by (simp_all add: emit_def)

lemma pass_frame_refl: "pass_frame w w"
  by (simp add: pass_frame_def)

lemma pass_frame_trans: "pass_frame w w1 \<Longrightarrow> pass_frame w1 w2 \<Longrightarrow> pass_frame w w2"
  by (auto simp: pass_frame_def)

lemma image_log_frame: "image_log cfg i tag w = (r, w') \<Longrightarrow> pass_frame w w'"
  by (auto simp: image_log_def pass_frame_def emit_simps split: if_splits)

lemma pass_frame_emit:
  "list_all (pass_call (train_minib_counter w)) cs \<Longrightarrow> pass_frame w (emit cs w)"
  by (simp add: pass_frame_def emit_simps)

lemma pass_frame_vmc: "pass_frame w (w\<lparr> valid_minib_counter := k \<rparr>)"
  by (simp add: pass_frame_def)

lemma validate_loop_frame:
  "validate_loop cfg i m bs w = (r, w') \<Longrightarrow> pass_frame w w'"
proof (induction bs arbitrary: i m w)
  case Nil
  then show ?case by (simp add: pass_frame_refl)
next
  case (Cons b bs)
  let ?w1 = "emit [Forward] w"
  have f1: "pass_frame w ?w1" by (simp add: pass_frame_emit)
  obtain r2 w2 where i2: "image_log cfg i ''images'' ?w1 = (r2, w2)" by fastforce
  obtain r3 w3 where i3: "image_log cfg i ''masks'' w2 = (r3, w3)" by fastforce
  obtain r4 w4 where i4: "image_log cfg i ''preds'' w3 = (r4, w4)" by fastforce
  have f2: "pass_frame w w2"
    using f1 image_log_frame[OF i2] by (blast intro: pass_frame_trans)
  have f3: "pass_frame w w3"
    using f2 image_log_frame[OF i3] by (blast intro: pass_frame_trans)
  have f4: "pass_frame w w4"
    using f3 image_log_frame[OF i4] by (blast intro: pass_frame_trans)
  let ?w5 = "emit [Criterion] w4"
  have f5: "pass_frame w ?w5"
    using f4 pass_frame_emit[of w4 "[Criterion]"] by (auto intro: pass_frame_trans)
  show ?case
  proof (cases r2)
    case (Inl e)
    then show ?thesis using Cons.prems i2 f2 by (simp add: Let_def)
  next
    case a2: (Inr u2)
    show ?thesis
    proof (cases r3)
      case (Inl e)
      then show ?thesis using Cons.prems i2 i3 a2 f3 by (simp add: Let_def)
    next
      case a3: (Inr u3)
      show ?thesis
      proof (cases r4)
        case (Inl e)
        then show ?thesis using Cons.prems i2 i3 i4 a2 a3 f4 by (simp add: Let_def)
      next
        case a4: (Inr u4)
        show ?thesis
        proof (cases "update m (bloss b) (bsize b)")
          case (Inl e)
          then show ?thesis using Cons.prems i2 i3 i4 a2 a3 a4 f5 by (simp add: Let_def)
        next
          case (Inr m')
          let ?w6 = "if tensorboard cfg
                     then emit [ScalarSummary ''valid_loss'' (val m') (valid_minib_counter ?w5)] ?w5
                     else ?w5"
          let ?w7 = "?w6\<lparr> valid_minib_counter := valid_minib_counter ?w6 + 1 \<rparr>"
          have f6: "pass_frame ?w5 ?w6"
            by (simp add: pass_frame_emit pass_frame_refl)
          have f7: "pass_frame w ?w7"
            using f5 f6 pass_frame_vmc[of ?w6] by (blast intro: pass_frame_trans)
          show ?thesis
          proof (cases "print_freq cfg = 0")
            case True
            then show ?thesis using Cons.prems i2 i3 i4 a2 a3 a4 Inr f7
              by (simp add: Let_def)
          next
            case False
            then have "validate_loop cfg (i + 1) m' bs ?w7 = (r, w')"
              using Cons.prems i2 i3 i4 a2 a3 a4 Inr by (simp add: Let_def)
            from Cons.IH[OF this] f7 show ?thesis by (blast intro: pass_frame_trans)
          qed
        qed
      qed
    qed
  qed
qed

lemma validate_frame:
  "validate cfg bs w = (r, w') \<Longrightarrow>
   fs w' = fs w \<and> best_val_loss w' = best_val_loss w \<and>
   train_minib_counter w' = train_minib_counter w \<and>
   (\<exists>cs. calls w' = calls w @ ModelEval # cs \<and> list_all (pass_call (train_minib_counter w)) cs)"
proof -
  assume a: "validate cfg bs w = (r, w')"
  obtain r0 w0 where l: "validate_loop cfg 0 reset bs (emit [ModelEval] w) = (r0, w0)"
    by fastforce
  have "w' = w0" using a l by (auto simp: validate_def split: sum.splits)
  with validate_loop_frame[OF l] show ?thesis
    by (auto simp: pass_frame_def emit_simps)
qed

lemma train_frame_trans: "train_frame w w1 \<Longrightarrow> train_frame w1 w2 \<Longrightarrow> train_frame w w2"
  by (auto simp: train_frame_def)

lemma train_loop_frame:
  "train_loop cfg i m bs w = (r, w') \<Longrightarrow> train_frame w w'"
proof (induction bs arbitrary: i m w)
  case Nil
  then show ?case by (simp add: train_frame_def)
next
  case (Cons b bs)
  let ?w1 = "emit [Forward, Criterion] w"
  show ?case
  proof (cases "update m (bloss b) (bsize b)")
    case (Inl e)
    then show ?thesis using Cons.prems by (auto simp: Let_def train_frame_def emit_simps)
  next
    case (Inr m')
    let ?w2 = "emit [ZeroGrad, Backward] ?w1"
    let ?w3 = "if tensorboard cfg
               then emit [ScalarSummary ''train_loss'' (val m') (train_minib_counter ?w2)] ?w2
               else ?w2"
    let ?w4 = "?w3\<lparr> train_minib_counter := train_minib_counter ?w3 + 1 \<rparr>"
    have f4: "train_frame w ?w4"
      by (simp add: train_frame_def emit_simps)
    show ?thesis
    proof (cases "print_freq cfg = 0")
      case True
      then show ?thesis using Cons.prems Inr f4 by (simp add: Let_def)
    next
      case False
      then have "train_loop cfg (i + 1) m' bs ?w4 = (r, w')"
        using Cons.prems Inr by (simp add: Let_def)
      from Cons.IH[OF this] f4 show ?thesis by (blast intro: train_frame_trans)
    qed
  qed
qed

lemma train_frame:
  "train cfg bs epoch w = (r, w') \<Longrightarrow>
   fs w' = fs w \<and> best_val_loss w' = best_val_loss w \<and>
   (\<exists>cs. calls w' = calls w @ ModelTrain # cs \<and> list_all train_call cs)"
proof -
  assume a: "train cfg bs epoch w = (r, w')"
  obtain r0 w0 where l: "train_loop cfg 0 reset bs (emit [ModelTrain] w) = (r0, w0)"
    by fastforce
  have "w' = w0" using a l by (auto simp: train_def split: sum.splits)
  with train_loop_frame[OF l] show ?thesis
    by (auto simp: train_frame_def emit_simps)
qed

subsection \<open>The training pass and the optimizer\<close>

text \<open>
  No training pass ever calls \<^verbatim>\<open>optimizer.step()\<close>: the calls of a pass are
  \<^verbatim>\<open>model.train()\<close>, then per batch the forward pass, the criterion,
  \<^verbatim>\<open>optimizer.zero_grad()\<close>, \<^verbatim>\<open>loss.backward()\<close> and the scalar log.
\<close>

lemma train_never_steps:
  "filter (\<lambda>c. c = OptimizerStep) (calls (snd (train cfg bs epoch w)))
   = filter (\<lambda>c. c = OptimizerStep) (calls w)"
proof -
  obtain r w' where t: "train cfg bs epoch w = (r, w')" by fastforce
  from train_frame[OF t] obtain cs where
    c: "calls w' = calls w @ ModelTrain # cs" "list_all train_call cs" by blast
  have "filter (\<lambda>c. c = OptimizerStep) cs = []"
    using c(2) by (induction cs) auto
  then show ?thesis using t c(1) by simp
qed

text \<open>
  Claim C1 says that a training pass triggers the optimizer's parameter-update step once
  per batch, right after the batch's loss. The code computes the gradients
  (\<^verbatim>\<open>optimizer.zero_grad()\<close>, \<^verbatim>\<open>loss.backward()\<close>, under the comment
  ``compute gradient and do SGD step'') and never calls \<^verbatim>\<open>optimizer.step()\<close>: on a
  pass over two batches, with the default arguments, the calls hold no update at all,
  where the claim asks for two.
\<close>

theorem train_two_batches_no_optimizer_step:
  "train default_args two_batches 0 (initial_world Map.empty)
   = (Inr (13 / 30),
      \<lparr> calls = [ModelTrain, Forward, Criterion, ZeroGrad, Backward,
                 Forward, Criterion, ZeroGrad, Backward],
        fs = Map.empty, best_val_loss = 100,
        train_minib_counter = 2, valid_minib_counter = 0 \<rparr>)"
  by (simp add: train_def two_batches_def update_def reset_def emit_def default_args_def
      initial_world_def Let_def)

subsection \<open>The validation pass\<close>

lemma pass_call_inference: "pass_call t c \<Longrightarrow> inference_call c"
  by (cases c) auto

text \<open>
  Claim C5: a validation pass never triggers a parameter update, and the model is in
  inference mode for the whole pass. Whatever the arguments, the batches and the state,
  and whether the pass returns or raises, its first call is \<^verbatim>\<open>model.eval()\<close> and
  every later call is a forward pass, a criterion evaluation or a log: no
  \<^verbatim>\<open>optimizer.step()\<close>, no \<^verbatim>\<open>backward\<close>, no \<^verbatim>\<open>load_state_dict\<close>, and no
  \<^verbatim>\<open>model.train()\<close> that would leave inference mode.
\<close>

theorem validate_no_parameter_update:
  "\<exists>cs. calls (snd (validate cfg val_loader w)) = calls w @ ModelEval # cs \<and>
        list_all inference_call cs"
proof -
  obtain r w' where t: "validate cfg val_loader w = (r, w')" by fastforce
  from validate_frame[OF t] obtain cs where
    c: "calls w' = calls w @ ModelEval # cs" "list_all (pass_call (train_minib_counter w)) cs"
    by blast
  have "list_all inference_call cs"
    using c(2) by (induction cs) (auto dest: pass_call_inference)
  then show ?thesis using t c(1) by auto
qed

text \<open>
  Claim C10: every image log of a validation pass carries the global training-batch
  counter as its step, and the pass does not change that counter, so all image logs of
  one pass carry the same step.
\<close>

theorem validate_image_step:
  "train_minib_counter (snd (validate cfg val_loader w)) = train_minib_counter w \<and>
   (\<forall>c \<in> set (drop (length (calls w)) (calls (snd (validate cfg val_loader w)))).
      \<forall>tag s. c = ImageSummary tag s \<longrightarrow> s = train_minib_counter w)"
proof -
  obtain r w' where t: "validate cfg val_loader w = (r, w')" by fastforce
  from validate_frame[OF t] obtain cs where
    c: "calls w' = calls w @ ModelEval # cs" "list_all (pass_call (train_minib_counter w)) cs"
    and k: "train_minib_counter w' = train_minib_counter w"
    by blast
  have "\<forall>c \<in> set (ModelEval # cs). \<forall>tag s. c = ImageSummary tag s \<longrightarrow> s = train_minib_counter w"
    using c(2) by (auto simp: list_all_iff)
  then show ?thesis using t c(1) k by simp
qed

theorem validate_image_step_witness:
  "calls (snd (validate image_cfg two_batches
     ((initial_world Map.empty)\<lparr> train_minib_counter := 7 \<rparr>)))
   = [ModelEval,
      Forward, ImageSummary ''images'' 7, ImageSummary ''masks'' 7, ImageSummary ''preds'' 7,
      Criterion, ScalarSummary ''valid_loss'' (1 / 2) 0,
      Forward, ImageSummary ''images'' 7, ImageSummary ''masks'' 7, ImageSummary ''preds'' 7,
      Criterion, ScalarSummary ''valid_loss'' (3 / 10) 1]
   \<and> train_minib_counter (snd (validate image_cfg two_batches
        ((initial_world Map.empty)\<lparr> train_minib_counter := 7 \<rparr>))) = 7"
  using validate_image_step[of image_cfg two_batches
      "(initial_world Map.empty)\<lparr> train_minib_counter := 7 \<rparr>"]
  by (simp add: validate_def image_log_def two_batches_def update_def reset_def emit_def
      image_cfg_def default_args_def initial_world_def Let_def)

subsection \<open>AverageMeter\<close>

lemma update_Inr:
  "update m v n = Inr m' \<Longrightarrow>
   sum_m m' = sum_m m + v * of_int n \<and> count m' = count m + n \<and> count m' \<noteq> 0 \<and>
   avg m' = sum_m m' / of_int (count m') \<and> val m' = v"
  by (auto simp: update_def Let_def split: if_splits)

lemma updates_sum_count:
  "updates m ups = Inr m' \<Longrightarrow>
   sum_m m' = sum_m m + (\<Sum>(v, n)\<leftarrow>ups. v * of_int n) \<and>
   count m' = count m + (\<Sum>(v, n)\<leftarrow>ups. n)"
proof (induction ups arbitrary: m)
  case Nil
  then show ?case by simp
next
  case (Cons a ups)
  obtain v n where a: "a = (v, n)" by (cases a)
  from Cons.prems a obtain m1 where
    u: "update m v n = Inr m1" and r: "updates m1 ups = Inr m'"
    by (auto split: sum.splits)
  from Cons.IH[OF r] update_Inr[OF u] a show ?case by simp
qed

lemma updates_avg:
  "updates m ups = Inr m' \<Longrightarrow> ups \<noteq> [] \<Longrightarrow>
   count m' \<noteq> 0 \<and> avg m' = sum_m m' / of_int (count m')"
proof (induction ups arbitrary: m)
  case Nil
  then show ?case by simp
next
  case (Cons a ups)
  obtain v n where a: "a = (v, n)" by (cases a)
  from Cons.prems a obtain m1 where
    u: "update m v n = Inr m1" and r: "updates m1 ups = Inr m'"
    by (auto split: sum.splits)
  show ?case
  proof (cases "ups = []")
    case True
    then show ?thesis using r update_Inr[OF u] by simp
  next
    case False
    from Cons.IH[OF r False] show ?thesis .
  qed
qed

lemma updates_positive:
  "\<forall>(v, n) \<in> set ups. 0 < n \<Longrightarrow> 0 \<le> count m \<Longrightarrow> \<exists>m'. updates m ups = Inr m'"
proof (induction ups arbitrary: m)
  case Nil
  then show ?case by simp
next
  case (Cons a ups)
  obtain v n where a: "a = (v, n)" by (cases a)
  have n: "0 < n" using Cons.prems(1) a by simp
  then obtain m1 where u: "update m v n = Inr m1" and c: "0 \<le> count m1"
    using Cons.prems(2) by (auto simp: update_def Let_def)
  have "\<forall>(v, n) \<in> set ups. 0 < n" using Cons.prems(1) by simp
  from Cons.IH[OF this c] show ?case using a u by simp
qed

text \<open>
  Claim C7: a freshly reset meter reads the mean 0; after \<^verbatim>\<open>reset()\<close> and the updates
  \<open>(v\<^sub>1, w\<^sub>1), \<dots>, (v\<^sub>n, w\<^sub>n)\<close> the mean is \<open>sum (v\<^sub>i * w\<^sub>i) / sum w\<^sub>i\<close>. The
  second part holds whenever the updates return, and they all return when the weights
  are positive, as the item counts of batches are.
\<close>

theorem average_meter_mean:
  "avg reset = 0 \<and>
   (\<forall>ups m. ups \<noteq> [] \<and> updates reset ups = Inr m \<longrightarrow>
      avg m = (\<Sum>(v, n)\<leftarrow>ups. v * of_int n) / of_int (\<Sum>(v, n)\<leftarrow>ups. n)) \<and>
   (\<forall>ups. (\<forall>(v, n) \<in> set ups. 0 < n) \<longrightarrow> (\<exists>m. updates reset ups = Inr m))"
proof (intro conjI allI impI)
  show "avg reset = 0" by (simp add: reset_def)
next
  fix ups m
  assume a: "ups \<noteq> [] \<and> updates reset ups = Inr m"
  from updates_sum_count[of reset ups m] updates_avg[of reset ups m] a
  show "avg m = (\<Sum>(v, n)\<leftarrow>ups. v * of_int n) / of_int (\<Sum>(v, n)\<leftarrow>ups. n)"
    by (simp add: reset_def)
next
  fix ups :: "(real \<times> int) list"
  assume "\<forall>(v, n) \<in> set ups. 0 < n"
  from updates_positive[OF this, of reset] show "\<exists>m. updates reset ups = Inr m"
    by (simp add: reset_def)
qed

theorem average_meter_mean_witness:
  "\<exists>m. updates reset [(1 / 2, 4), (3 / 10, 2)] = Inr m \<and> avg m = 13 / 30"
proof -
  have p: "\<forall>(v, n) \<in> set [(1 / 2 :: real, 4 :: int), (3 / 10, 2)]. 0 < n" by simp
  from average_meter_mean p obtain m where
    m: "updates reset [(1 / 2, 4), (3 / 10, 2)] = Inr m" by blast
  from average_meter_mean m
  have "avg m = (\<Sum>(v, n)\<leftarrow>[(1 / 2 :: real, 4 :: int), (3 / 10, 2)]. v * of_int n)
                / of_int (\<Sum>(v, n)\<leftarrow>[(1 / 2 :: real, 4 :: int), (3 / 10, 2)]. n)"
    by blast
  then have "avg m = 13 / 30" by simp
  with m show ?thesis by blast
qed

subsection \<open>Checkpoints\<close>






subsection \<open>Resuming\<close>



subsection \<open>The initial best loss\<close>














subsection \<open>Configuration errors\<close>





subsection \<open>The dataset split\<close>



subsection \<open>The scheduler's floor\<close>

lemma scheduler_step_config:
  "factor (snd (scheduler_step v s)) = factor s \<and> min_lr (snd (scheduler_step v s)) = min_lr s"
  by (simp add: scheduler_step_def Let_def)

lemma scheduler_step_size:
  "step_size (snd (scheduler_step v s)) = step_size s \<or>
   step_size (snd (scheduler_step v s)) = max (step_size s * factor s) (min_lr s)"
  by (simp add: scheduler_step_def Let_def)

lemma scheduler_steps_config:
  "factor (scheduler_steps vs s) = factor s \<and> min_lr (scheduler_steps vs s) = min_lr s"
  by (induction vs arbitrary: s) (simp_all add: scheduler_step_config)

lemma scheduler_steps_set:
  "step_size (scheduler_steps vs s) = step_size s \<or> min_lr s \<le> step_size (scheduler_steps vs s)"
proof (induction vs arbitrary: s)
  case Nil
  then show ?case by simp
next
  case (Cons v vs)
  let ?s1 = "snd (scheduler_step v s)"
  have c: "min_lr ?s1 = min_lr s" by (simp add: scheduler_step_config)
  from Cons.IH[of ?s1] scheduler_step_size[of v s] c show ?case by auto
qed

lemma scheduler_steps_floor:
  "0 \<le> min_lr s \<Longrightarrow> factor s \<le> 1 \<Longrightarrow> step_size s = min_lr s \<Longrightarrow>
   step_size (scheduler_steps vs s) = min_lr s"
proof (induction vs arbitrary: s)
  case Nil
  then show ?case by simp
next
  case (Cons v vs)
  let ?s1 = "snd (scheduler_step v s)"
  have c: "min_lr ?s1 = min_lr s" "factor ?s1 = factor s" by (simp_all add: scheduler_step_config)
  have "min_lr s * factor s \<le> min_lr s"
    using Cons.prems(1,2) by (simp add: mult_left_le)
  then have "max (step_size s * factor s) (min_lr s) = min_lr s"
    using Cons.prems(3) by simp
  then have "step_size ?s1 = min_lr ?s1"
    using scheduler_step_size[of v s] Cons.prems(3) c by auto
  from Cons.IH[OF _ _ this] Cons.prems c show ?case by simp
qed

text \<open>
  Claim C8: over every sequence of \<open>step\<close> calls on the scheduler \<^verbatim>\<open>main\<close>
  configures (floor \<open>10\<^sup>-\<^sup>7\<close>), the step size is either the optimizer's initial
  learning rate, never touched, or at least the floor; and once it is at the floor,
  no further sequence of steps changes it.
\<close>

theorem scheduler_floor:
  "(step_size (scheduler_steps vs (main_scheduler cfg cd)) = lr cfg \<or>
    1 / 10 ^ 7 \<le> step_size (scheduler_steps vs (main_scheduler cfg cd))) \<and>
   (step_size (scheduler_steps vs (main_scheduler cfg cd)) = 1 / 10 ^ 7 \<longrightarrow>
    step_size (scheduler_steps us (scheduler_steps vs (main_scheduler cfg cd))) = 1 / 10 ^ 7)"
proof (intro conjI impI)
  let ?s = "scheduler_steps vs (main_scheduler cfg cd)"
  have c: "factor ?s = 1 / 10" "min_lr ?s = 1 / 10 ^ 7"
    using scheduler_steps_config[of vs "main_scheduler cfg cd"]
    by (simp_all add: main_scheduler_def)
  show "step_size ?s = lr cfg \<or> 1 / 10 ^ 7 \<le> step_size ?s"
    using scheduler_steps_set[of vs "main_scheduler cfg cd"]
    by (simp add: main_scheduler_def)
  assume "step_size ?s = 1 / 10 ^ 7"
  then show "step_size (scheduler_steps us ?s) = 1 / 10 ^ 7"
    using scheduler_steps_floor[of ?s us] c by simp
qed

theorem scheduler_floor_witness:
  "step_size (scheduler_steps [1, 1, 1, 1, 1, 1] (main_scheduler default_args 0)) = 1 / 100 \<and>
   step_size (scheduler_steps [1, 1, 1, 1, 1, 1, 1]
     (main_scheduler (default_args\<lparr> lr := 1 / 10 ^ 7 \<rparr>) 0)) = 1 / 10 ^ 7"
proof -
  have a: "step_size (scheduler_steps [1] (main_scheduler (default_args\<lparr> lr := 1 / 10 ^ 7 \<rparr>) 0))
           = 1 / 10 ^ 7"
    by (simp add: scheduler_step_def improves_def main_scheduler_def default_args_def Let_def)
  have b: "step_size (scheduler_steps [1, 1, 1, 1, 1, 1] (main_scheduler default_args 0)) = 1 / 100"
    by (simp add: scheduler_step_def improves_def main_scheduler_def default_args_def Let_def)
  from scheduler_floor[of "[1]" "default_args\<lparr> lr := 1 / 10 ^ 7 \<rparr>" 0 "[1, 1, 1, 1, 1, 1]"] a
  have "step_size (scheduler_steps [1, 1, 1, 1, 1, 1]
          (scheduler_steps [1] (main_scheduler (default_args\<lparr> lr := 1 / 10 ^ 7 \<rparr>) 0))) = 1 / 10 ^ 7"
    by blast
  then show ?thesis using b by simp
qed

end
